theory Spec2Isabelle
  imports Complex_Main "HOL-Library.Monad_Syntax"
begin

section \<open>The particle network of \<open>assets/js/particles.js\<close>\<close>

text \<open>
  The script animates a fixed collection of particles on a canvas.  JavaScript numbers
  are modelled as reals.  The operations that turn finite operands into a non-finite
  value (\<open>NaN\<close> or \<open>\<plusminus>Infinity\<close>), \<open>Math.sqrt\<close> of a negative number and
  division by zero, return \<open>None\<close> there, and the model threads that result through
  every computation that uses them: \<open>None\<close> stands for a state holding a non-finite
  number.  The rounding of every operation to a double is written out in the force of the
  pointer and in the rescaling of \<open>resize\<close>, where the result read from the particle
  depends on it; elsewhere the arithmetic is exact, and overflow is not modelled.
\<close>

subsection \<open>Configuration\<close>

definition particleCount :: nat where "particleCount = 120"
definition particleColor :: string where "particleColor = ''rgba(255, 255, 255, 0.9)''"
definition particleSize :: real where "particleSize = 3.5"
definition maxDistance :: real where "maxDistance = 180"
definition speed :: real where "speed = 0.3"
definition mouseRadius :: real where "mouseRadius = 200"
definition mouseForce :: real where "mouseForce = 0.05"

subsection \<open>Numbers of the host language\<close>

definition Math_sqrt :: "real \<Rightarrow> real option" where
  "Math_sqrt v = (if v < 0 then None else Some (sqrt v))"

definition js_div :: "real \<Rightarrow> real \<Rightarrow> real option" where
  "js_div a b = (if b = 0 then None else Some (a / b))"

text \<open>
  Rounding to the nearest double (IEEE 754 binary64, ties to even) of a real in the
  normal range: a double has 53 significant bits, so the doubles of binary exponent
  \<open>e\<close> are the integer multiples of \<open>2 powi (e - 52)\<close>.  Subnormal numbers and
  overflow are not modelled.
\<close>

definition exponent :: "real \<Rightarrow> int" where
  "exponent v = \<lfloor>log 2 \<bar>v\<bar>\<rfloor>"

definition round_even :: "real \<Rightarrow> int" where
  "round_even v =
     (let f = \<lfloor>v\<rfloor>
      in if v - of_int f < 1 / 2 then f
         else if 1 / 2 < v - of_int f then f + 1
         else if even f then f else f + 1)"

definition round_double :: "real \<Rightarrow> real" where
  "round_double v =
     of_int (round_even (v / 2 powi (exponent v - 52))) * 2 powi (exponent v - 52)"

text \<open>
  \<open>Math.atan2(y, x)\<close> as ECMAScript defines it on finite arguments; it is total, and
  \<open>Math.atan2(+0, +0)\<close> is \<open>+0\<close>.  A difference \<open>a - a\<close> of equal finite doubles
  is \<open>+0\<close>, so the zeros the script passes are positive ones.
\<close>

definition Math_atan2 :: "real \<Rightarrow> real \<Rightarrow> real" where
  "Math_atan2 b a =
     (if 0 < a then arctan (b / a)
      else if a < 0 then (if 0 \<le> b then arctan (b / a) + pi else arctan (b / a) - pi)
      else if 0 < b then pi / 2
      else if b < 0 then - (pi / 2)
      else 0)"

text \<open>
  \<open>Math.random()\<close> draws from a source of numbers in \<open>[0, 1)\<close>: the source is the
  sequence of the values still to come, a call returns its head and leaves the rest.
\<close>

type_synonym rng = "nat \<Rightarrow> real"

definition Math_random :: "rng \<Rightarrow> real \<times> rng" where
  "Math_random g = (g 0, \<lambda>n. g (Suc n))"

definition rng_ok :: "rng \<Rightarrow> bool" where
  "rng_ok g = (\<forall>n. 0 \<le> g n \<and> g n < 1)"

definition const_rng :: "real \<Rightarrow> rng" where
  "const_rng c = (\<lambda>n. c)"

subsection \<open>Data\<close>

record canvas =
  width :: real
  height :: real

text \<open>
  A particle keeps a reference to its canvas; every particle of a system is created with
  the system's canvas and \<open>resize\<close> assigns the same object again, so the canvas is
  passed to the operations that read it.
\<close>

record particle =
  px :: real
  py :: real
  pvx :: real
  pvy :: real
  psize :: real

record mouse =
  mouse_x :: "real option"
  mouse_y :: "real option"

datatype draw_op =
    ClearRect real real real real
  | BeginPath
  | Arc real real real real real
  | FillStyle string
  | Fill
  | StrokeStyle real
  | LineWidth real
  | MoveTo real real
  | LineTo real real
  | Stroke

subsection \<open>Particle\<close>

definition reset :: "particle \<Rightarrow> canvas \<Rightarrow> rng \<Rightarrow> particle \<times> rng" where
  "reset p cv g =
     (let (r1, g1) = Math_random g;
          (r2, g2) = Math_random g1;
          (r3, g3) = Math_random g2;
          (r4, g4) = Math_random g3
      in (p\<lparr>px := r1 * width cv, py := r2 * height cv,
            pvx := (r3 - 0.5) * speed, pvy := (r4 - 0.5) * speed,
            psize := particleSize\<rparr>, g4))"

definition new_Particle :: "canvas \<Rightarrow> rng \<Rightarrow> particle \<times> rng" where
  "new_Particle cv g =
     (let (p, g1) = reset \<lparr>px = 0, py = 0, pvx = 0, pvy = 0, psize = 0\<rparr> cv g;
          (r1, g2) = Math_random g1;
          (r2, g3) = Math_random g2
      in (p\<lparr>px := r1 * width cv, py := r2 * height cv\<rparr>, g3))"

text \<open>The five blocks of \<open>update\<close>, in the order of the source.\<close>

definition force_at :: "real \<Rightarrow> real option" where
  "force_at distance =
     do {
       q \<leftarrow> js_div (round_double (mouseRadius - distance)) mouseRadius;
       Some (round_double q)
     }"

definition mouse_interaction :: "particle \<Rightarrow> mouse \<Rightarrow> particle option" where
  "mouse_interaction p m =
     (case (mouse_x m, mouse_y m) of
        (Some mx, Some my) \<Rightarrow>
          (let dx = px p - mx; dy = py p - my in
           do {
             distance \<leftarrow> Math_sqrt (dx * dx + dy * dy);
             if distance < mouseRadius then
               do {
                 force \<leftarrow> force_at distance;
                 let angle = Math_atan2 dy dx;
                 Some (p\<lparr>pvx := pvx p + cos angle * force * mouseForce,
                         pvy := pvy p + sin angle * force * mouseForce\<rparr>)
               }
             else Some p
           })
      | _ \<Rightarrow> Some p)"

definition update_position :: "particle \<Rightarrow> particle" where
  "update_position p = p\<lparr>px := px p + pvx p, py := py p + pvy p\<rparr>"

definition damping :: "particle \<Rightarrow> particle" where
  "damping p = p\<lparr>pvx := pvx p * 0.99, pvy := pvy p * 0.99\<rparr>"

definition keep_moving :: "particle \<Rightarrow> rng \<Rightarrow> particle \<times> rng" where
  "keep_moving p g =
     (let (p1, g1) =
            (if \<bar>pvx p\<bar> < 0.1
             then (let (r, g') = Math_random g in (p\<lparr>pvx := pvx p + (r - 0.5) * 0.1\<rparr>, g'))
             else (p, g))
      in if \<bar>pvy p1\<bar> < 0.1
         then (let (r, g') = Math_random g1 in (p1\<lparr>pvy := pvy p1 + (r - 0.5) * 0.1\<rparr>, g'))
         else (p1, g1))"

definition boundary_collision :: "particle \<Rightarrow> canvas \<Rightarrow> particle" where
  "boundary_collision p cv =
     (let p1 = (if px p < 0 \<or> px p > width cv
                then p\<lparr>pvx := pvx p * (- 1), px := max 0 (min (width cv) (px p))\<rparr>
                else p)
      in if py p1 < 0 \<or> py p1 > height cv
         then p1\<lparr>pvy := pvy p1 * (- 1), py := max 0 (min (height cv) (py p1))\<rparr>
         else p1)"

definition update :: "particle \<Rightarrow> mouse \<Rightarrow> canvas \<Rightarrow> rng \<Rightarrow> (particle \<times> rng) option" where
  "update p m cv g =
     do {
       p1 \<leftarrow> mouse_interaction p m;
       let p2 = update_position p1;
       let p3 = damping p2;
       let (p4, g') = keep_moving p3 g;
       Some (boundary_collision p4 cv, g')
     }"

definition draw :: "particle \<Rightarrow> draw_op list \<Rightarrow> draw_op list" where
  "draw p c = c @ [BeginPath, Arc (px p) (py p) (psize p) 0 (pi * 2), FillStyle particleColor, Fill]"

subsection \<open>ParticleSystem\<close>

record particle_system =
  canvas :: canvas
  ctx :: "draw_op list"
  particles :: "particle list"
  mouse :: mouse

text \<open>
  What the script reads from and leaves in its host: the measured size of the canvas's
  parent element, the event listeners registered, the number of callbacks handed to
  \<open>requestAnimationFrame\<close>, and the source of \<open>Math.random\<close>.

  The document maps an id to the element of that id, if there is one.  The element is a
  canvas, with the answer of \<open>getContext('2d')\<close> (a context, or \<open>null\<close> when the
  canvas already has a context of another kind), or an element of another kind, which
  has no \<open>getContext\<close>.  An element found in an HTML document has a parent element.
\<close>

datatype listener = WindowResize | CanvasMouseMove | CanvasMouseLeave

record host =
  offsetWidth :: real
  offsetHeight :: real
  listeners :: "listener list"
  animation_frames :: nat
  random :: rng

datatype context_2d = Context2d | NullContext

datatype element = CanvasElement canvas context_2d | OtherElement

type_synonym document = "string \<Rightarrow> element option"

datatype js_error = TypeError

fun resize_particles :: "particle list \<Rightarrow> real \<Rightarrow> real \<Rightarrow> real \<Rightarrow> real \<Rightarrow> particle list option" where
  "resize_particles [] oldWidth oldHeight newWidth newHeight = Some []"
| "resize_particles (p # ps) oldWidth oldHeight newWidth newHeight =
     do {
       qx \<leftarrow> js_div (px p) oldWidth;
       qy \<leftarrow> js_div (py p) oldHeight;
       ps' \<leftarrow> resize_particles ps oldWidth oldHeight newWidth newHeight;
       Some (p\<lparr>px := round_double (round_double qx * newWidth),
               py := round_double (round_double qy * newHeight)\<rparr> # ps')
     }"

definition resize :: "particle_system \<Rightarrow> host \<Rightarrow> particle_system option" where
  "resize s h =
     (let oldWidth = width (canvas s);
          oldHeight = height (canvas s);
          newWidth = offsetWidth h;
          newHeight = offsetHeight h;
          s1 = s\<lparr>canvas := (canvas s)\<lparr>width := newWidth, height := newHeight\<rparr>\<rparr>
      in if oldWidth > 0 \<and> oldHeight > 0
         then do {
           ps \<leftarrow> resize_particles (particles s1) oldWidth oldHeight newWidth newHeight;
           Some (s1\<lparr>particles := ps\<rparr>)
         }
         else Some s1)"

function init_loop :: "nat \<Rightarrow> particle_system \<Rightarrow> rng \<Rightarrow> particle_system \<times> rng" where
  "init_loop i s g =
     (if i < particleCount
      then (let (p, g') = new_Particle (canvas s) g
            in init_loop (i + 1) (s\<lparr>particles := particles s @ [p]\<rparr>) g')
      else (s, g))"
  by pat_completeness auto
termination
  by (relation "measure (\<lambda>(i, s, g). particleCount - i)") auto

declare init_loop.simps [simp del]

definition init :: "particle_system \<Rightarrow> host \<Rightarrow> (particle_system \<times> host) option" where
  "init s h =
     do {
       s1 \<leftarrow> resize s h;
       let (s2, g) = init_loop 0 s1 (random h);
       Some (s2, h\<lparr>random := g\<rparr>)
     }"

definition bindEvents :: "host \<Rightarrow> host" where
  "bindEvents h = h\<lparr>listeners := listeners h @ [WindowResize, CanvasMouseMove, CanvasMouseLeave]\<rparr>"

definition on_mousemove :: "particle_system \<Rightarrow> real \<Rightarrow> real \<Rightarrow> real \<Rightarrow> real \<Rightarrow> particle_system" where
  "on_mousemove s clientX clientY rect_left rect_top =
     s\<lparr>mouse := \<lparr>mouse_x = Some (clientX - rect_left), mouse_y = Some (clientY - rect_top)\<rparr>\<rparr>"

definition on_mouseleave :: "particle_system \<Rightarrow> particle_system" where
  "on_mouseleave s = s\<lparr>mouse := \<lparr>mouse_x = None, mouse_y = None\<rparr>\<rparr>"

definition opacity_at :: "real \<Rightarrow> real option" where
  "opacity_at distance = do { q \<leftarrow> js_div distance maxDistance; Some ((1 - q) * 0.5) }"

text \<open>
  The body of the inner loop of \<open>drawLines\<close>, for the particles of indices \<open>i\<close> and
  \<open>j\<close>.  Beside the system it carries a log, which the script does not have: where the
  distance of a pair is computed, the pair and the distance are appended to it.
\<close>

type_synonym distance_log = "(nat \<times> nat \<times> real) list"

definition connect ::
  "particle_system \<Rightarrow> distance_log \<Rightarrow> nat \<Rightarrow> nat \<Rightarrow> (particle_system \<times> distance_log) option" where
  "connect s tr i j =
     (let dx = px (particles s ! i) - px (particles s ! j);
          dy = py (particles s ! i) - py (particles s ! j)
      in do {
        distance \<leftarrow> Math_sqrt (dx * dx + dy * dy);
        let tr' = tr @ [(i, j, distance)];
        if distance < maxDistance then
          do {
            opacity \<leftarrow> opacity_at distance;
            Some (s\<lparr>ctx := ctx s @
              [BeginPath, StrokeStyle opacity, LineWidth 2,
               MoveTo (px (particles s ! i)) (py (particles s ! i)),
               LineTo (px (particles s ! j)) (py (particles s ! j)),
               Stroke]\<rparr>, tr')
          }
        else Some (s, tr')
      })"

lemma connect_particles: "connect s tr i j = Some (s', tr') \<Longrightarrow> particles s' = particles s"
  by (auto simp: connect_def Let_def split: bind_splits if_splits)

text \<open>The two loops of \<open>drawLines\<close>.\<close>

function drawLines_inner ::
  "particle_system \<Rightarrow> distance_log \<Rightarrow> nat \<Rightarrow> nat \<Rightarrow> (particle_system \<times> distance_log) option" where
  "drawLines_inner s tr i j =
     (if j < length (particles s)
      then (case connect s tr i j of
              None \<Rightarrow> None
            | Some (s', tr') \<Rightarrow> drawLines_inner s' tr' i (j + 1))
      else Some (s, tr))"
  by pat_completeness auto
termination
  by (relation "measure (\<lambda>(s, tr, i, j). length (particles s) - j)")
     (auto dest: connect_particles)

declare drawLines_inner.simps [simp del]

lemma drawLines_inner_particles:
  "drawLines_inner s tr i j = Some (s', tr') \<Longrightarrow> particles s' = particles s"
proof (induction s tr i j rule: drawLines_inner.induct)
  case (1 s tr i j)
  show ?case
  proof (cases "j < length (particles s)")
    case True
    with "1.prems" obtain s1 tr1 where c: "connect s tr i j = Some (s1, tr1)"
      and r: "drawLines_inner s1 tr1 i (j + 1) = Some (s', tr')"
      by (subst (asm) drawLines_inner.simps) (auto split: option.splits)
    from "1.IH" [OF True c refl r] connect_particles [OF c] show ?thesis by simp
  next
    case False
    with "1.prems" show ?thesis by (subst (asm) drawLines_inner.simps) simp
  qed
qed

function drawLines_outer ::
  "particle_system \<Rightarrow> distance_log \<Rightarrow> nat \<Rightarrow> (particle_system \<times> distance_log) option" where
  "drawLines_outer s tr i =
     (if i < length (particles s)
      then (case drawLines_inner s tr i (i + 1) of
              None \<Rightarrow> None
            | Some (s', tr') \<Rightarrow> drawLines_outer s' tr' (i + 1))
      else Some (s, tr))"
  by pat_completeness auto
termination
  by (relation "measure (\<lambda>(s, tr, i). length (particles s) - i)")
     (auto dest: drawLines_inner_particles)

declare drawLines_outer.simps [simp del]

definition drawLines :: "particle_system \<Rightarrow> (particle_system \<times> distance_log) option" where
  "drawLines s = drawLines_outer s [] 0"

text \<open>The \<open>forEach\<close> of \<open>animate\<close>: each particle in turn is updated, then drawn.\<close>

fun update_and_draw ::
  "particle list \<Rightarrow> mouse \<Rightarrow> canvas \<Rightarrow> draw_op list \<Rightarrow> rng \<Rightarrow> (particle list \<times> draw_op list \<times> rng) option" where
  "update_and_draw [] m cv c g = Some ([], c, g)"
| "update_and_draw (p # ps) m cv c g =
     do {
       (p', g') \<leftarrow> update p m cv g;
       (ps', c', g'') \<leftarrow> update_and_draw ps m cv (draw p' c) g';
       Some (p' # ps', c', g'')
     }"

definition animate :: "particle_system \<Rightarrow> host \<Rightarrow> (particle_system \<times> host) option" where
  "animate s h =
     do {
       let s1 = s\<lparr>ctx := ctx s @ [ClearRect 0 0 (width (canvas s)) (height (canvas s))]\<rparr>;
       (s2, tr) \<leftarrow> drawLines s1;
       (ps, c, g) \<leftarrow> update_and_draw (particles s2) (mouse s2) (canvas s2) (ctx s2) (random h);
       Some (s2\<lparr>particles := ps, ctx := c\<rparr>,
             h\<lparr>random := g, animation_frames := animation_frames h + 1\<rparr>)
     }"

text \<open>
  The constructor.  It returns the object and the host, or raises an error, which leaves
  the host as it is at that point.  When the element is not found the object keeps
  \<open>canvas = null\<close> and no other field is assigned: that object is \<open>Inactive\<close>.  An
  element without \<open>getContext\<close> makes the call of line 84 raise a \<open>TypeError\<close>.  With a
  \<open>null\<close> context, \<open>init\<close> and \<open>bindEvents\<close>, which do not draw, run as usual, and
  the first statement of \<open>animate\<close>, \<open>this.ctx.clearRect\<close>, raises a \<open>TypeError\<close>.
\<close>

datatype system_object = Inactive | Active particle_system

definition new_ParticleSystem ::
  "document \<Rightarrow> string \<Rightarrow> host \<Rightarrow> ((js_error \<times> host) + (system_object \<times> host)) option" where
  "new_ParticleSystem doc canvasId h =
     (case doc canvasId of
        None \<Rightarrow> Some (Inr (Inactive, h))
      | Some OtherElement \<Rightarrow> Some (Inl (TypeError, h))
      | Some (CanvasElement cv c) \<Rightarrow>
          do {
            let s = \<lparr>canvas = cv, ctx = [], particles = [],
                     mouse = \<lparr>mouse_x = None, mouse_y = None\<rparr>\<rparr>;
            (s1, h1) \<leftarrow> init s h;
            let h2 = bindEvents h1;
            case c of
              NullContext \<Rightarrow> Some (Inl (TypeError, h2))
            | Context2d \<Rightarrow>
                do {
                  (s3, h3) \<leftarrow> animate s1 h2;
                  Some (Inr (Active s3, h3))
                }
          })"

subsection \<open>Measures used to state the properties\<close>

text \<open>
  The Euclidean distance of a particle from the pointer position \<open>(a, b)\<close>, as
  \<open>update\<close> computes it, and the distance of two particles, as \<open>drawLines\<close>
  computes it.
\<close>

abbreviation pointer_distance :: "particle \<Rightarrow> real \<Rightarrow> real \<Rightarrow> real" where
  "pointer_distance p a b \<equiv> sqrt ((px p - a) * (px p - a) + (py p - b) * (py p - b))"

abbreviation particle_distance :: "particle \<Rightarrow> particle \<Rightarrow> real" where
  "particle_distance p q \<equiv> sqrt ((px p - px q) * (px p - px q) + (py p - py q) * (py p - py q))"

text \<open>The drawing operations of one connecting line, as \<open>drawLines\<close> issues them.\<close>

abbreviation line_ops :: "particle \<Rightarrow> particle \<Rightarrow> real \<Rightarrow> draw_op list" where
  "line_ops p q opacity \<equiv>
     [BeginPath, StrokeStyle opacity, LineWidth 2, MoveTo (px p) (py p), LineTo (px q) (py q), Stroke]"

text \<open>
  The index pairs \<open>(a, b)\<close> with \<open>i \<le> a < b < n\<close>, in the order in which two nested
  loops from \<open>a = i\<close> and \<open>b = a + 1\<close> visit them.
\<close>

definition index_pairs :: "nat \<Rightarrow> nat \<Rightarrow> (nat \<times> nat) list" where
  "index_pairs n i = concat (map (\<lambda>a. map (Pair a) [a + 1..<n]) [i..<n])"

text \<open>
  What one pair of particles contributes: its entry of the log, and the line drawn for it,
  which is there when the two are nearer than \<open>maxDistance\<close>.
\<close>

definition measured :: "particle list \<Rightarrow> nat \<times> nat \<Rightarrow> nat \<times> nat \<times> real" where
  "measured ps ij = (fst ij, snd ij, particle_distance (ps ! fst ij) (ps ! snd ij))"

definition pair_ops :: "particle list \<Rightarrow> nat \<times> nat \<Rightarrow> draw_op list" where
  "pair_ops ps ij =
     (if particle_distance (ps ! fst ij) (ps ! snd ij) < maxDistance
      then line_ops (ps ! fst ij) (ps ! snd ij)
             ((1 - particle_distance (ps ! fst ij) (ps ! snd ij) / maxDistance) * 0.5)
      else [])"

subsection \<open>Example systems\<close>

definition two_particles :: particle_system where
  "two_particles =
     \<lparr>canvas = \<lparr>width = 300, height = 150\<rparr>, ctx = [],
      particles = [\<lparr>px = 0, py = 0, pvx = 0.1, pvy = 0, psize = 3.5\<rparr>,
                   \<lparr>px = 50, py = 0, pvx = 0, pvy = - 0.1, psize = 3.5\<rparr>],
      mouse = \<lparr>mouse_x = None, mouse_y = None\<rparr>\<rparr>"

definition four_particles :: particle_system where
  "four_particles =
     \<lparr>canvas = \<lparr>width = 300, height = 450\<rparr>, ctx = [],
      particles = [\<lparr>px = 10, py = 20, pvx = 0.1, pvy = 0, psize = 3.5\<rparr>,
                   \<lparr>px = 10, py = 20, pvx = 0, pvy = - 0.1, psize = 3.5\<rparr>,
                   \<lparr>px = 60, py = 20, pvx = 0, pvy = 0.1, psize = 3.5\<rparr>,
                   \<lparr>px = 10, py = 420, pvx = 0.1, pvy = 0.1, psize = 3.5\<rparr>],
      mouse = \<lparr>mouse_x = Some 5, mouse_y = Some 5\<rparr>\<rparr>"

definition example_host :: host where
  "example_host =
     \<lparr>offsetWidth = 800, offsetHeight = 600, listeners = [], animation_frames = 0,
      random = const_rng (1 / 2)\<rparr>"

definition other_document :: document where
  "other_document = Map.empty(''particles-canvas'' \<mapsto> OtherElement)"

section \<open>Properties\<close>

subsection \<open>Rounding to a double\<close>

lemma exponent_eq:
  assumes "2 powi e \<le> \<bar>v\<bar>" and "\<bar>v\<bar> < 2 powi (e + 1)"
  shows "exponent v = e"
proof -
  have "0 < (2::real) powi e" by simp
  with assms(1) have pos: "0 < \<bar>v\<bar>" by linarith
  have p1: "2 powr real_of_int e = (2::real) powi e"
    by (rule powr_real_of_int') simp_all
  have p2: "2 powr real_of_int (e + 1) = (2::real) powi (e + 1)"
    by (rule powr_real_of_int') simp_all
  have "\<lfloor>log 2 \<bar>v\<bar>\<rfloor> = e"
    using assms pos by (simp only: floor_log_eq_powr_iff [of "\<bar>v\<bar>" 2 e] p1 p2)
  then show ?thesis by (simp only: exponent_def)
qed

lemma exponent_bounds:
  assumes "v \<noteq> 0"
  shows "2 powi exponent v \<le> \<bar>v\<bar>" and "\<bar>v\<bar> < 2 powi (exponent v + 1)"
proof -
  from assms have pos: "0 < \<bar>v\<bar>" by simp
  have p1: "2 powr real_of_int (exponent v) = (2::real) powi exponent v"
    by (rule powr_real_of_int') simp_all
  have p2: "2 powr real_of_int (exponent v + 1) = (2::real) powi (exponent v + 1)"
    by (rule powr_real_of_int') simp_all
  have "\<lfloor>log 2 \<bar>v\<bar>\<rfloor> = exponent v" by (simp only: exponent_def)
  then have "2 powr real_of_int (exponent v) \<le> \<bar>v\<bar> \<and> \<bar>v\<bar> < 2 powr real_of_int (exponent v + 1)"
    using floor_log_eq_powr_iff [of "\<bar>v\<bar>" 2 "exponent v"] pos by simp
  then show "2 powi exponent v \<le> \<bar>v\<bar>" and "\<bar>v\<bar> < 2 powi (exponent v + 1)"
    by (simp_all only: p1 p2)
qed

lemma round_even_cases: "round_even v = \<lfloor>v\<rfloor> \<or> round_even v = \<lfloor>v\<rfloor> + 1"
  by (simp add: round_even_def Let_def)

lemma round_even_error: "\<bar>of_int (round_even v) - v\<bar> \<le> 1 / 2"
  unfolding round_even_def Let_def by (auto simp: abs_le_iff)

lemma round_even_of_int [simp]: "round_even (of_int n) = n"
  by (simp add: round_even_def)

lemma round_even_mono:
  assumes "v \<le> w"
  shows "round_even v \<le> round_even w"
proof (cases "\<lfloor>v\<rfloor> = \<lfloor>w\<rfloor>")
  case True
  with assms show ?thesis
    unfolding round_even_def Let_def by auto
next
  case False
  with assms have "\<lfloor>v\<rfloor> < \<lfloor>w\<rfloor>"
    using floor_mono [of v w] by linarith
  moreover have "round_even v \<le> \<lfloor>v\<rfloor> + 1"
    using round_even_cases [of v] by auto
  moreover have "\<lfloor>w\<rfloor> \<le> round_even w"
    using round_even_cases [of w] by auto
  ultimately show ?thesis by linarith
qed

lemma round_double_eq:
  assumes "2 powi e \<le> \<bar>v\<bar>" and "\<bar>v\<bar> < 2 powi (e + 1)"
  shows "round_double v = of_int (round_even (v / 2 powi (e - 52))) * 2 powi (e - 52)"
  by (simp add: round_double_def exponent_eq [OF assms])

lemma round_double_zero [simp]: "round_double 0 = 0"
  by (simp add: round_double_def round_even_def)

lemma round_double_error: "\<bar>round_double v - v\<bar> \<le> \<bar>v\<bar> / 2 ^ 53"
proof (cases "v = 0")
  case True
  then show ?thesis by simp
next
  case False
  let ?u = "(2::real) powi (exponent v - 52)"
  have u: "0 < ?u" by simp
  have "round_double v - v = (of_int (round_even (v / ?u)) - v / ?u) * ?u"
    using u by (simp add: round_double_def field_simps)
  then have "\<bar>round_double v - v\<bar> = \<bar>of_int (round_even (v / ?u)) - v / ?u\<bar> * ?u"
    using u by (simp add: abs_mult)
  also have "\<dots> \<le> 1 / 2 * ?u"
    using round_even_error [of "v / ?u"] u by (intro mult_right_mono) simp_all
  also have "\<dots> = 2 powi exponent v / 2 ^ 53"
    by (simp add: power_int_diff)
  also have "\<dots> \<le> \<bar>v\<bar> / 2 ^ 53"
    using exponent_bounds(1) [OF False] by (simp add: divide_right_mono)
  finally show ?thesis .
qed

lemma round_double_binade:
  assumes "0 < v"
  shows "2 powi exponent v \<le> round_double v" and "round_double v \<le> 2 powi (exponent v + 1)"
proof -
  let ?u = "(2::real) powi (exponent v - 52)"
  have u: "0 < ?u" by simp
  from assms have nz: "v \<noteq> 0" and a: "\<bar>v\<bar> = v" by simp_all
  have lo: "2 powi exponent v = of_int (2 ^ 52) * ?u"
    by (simp add: power_int_diff)
  have hi: "2 powi (exponent v + 1) = of_int (2 ^ 53) * ?u"
    by (simp add: power_int_diff power_int_add)
  have "of_int (2 ^ 52) \<le> v / ?u"
    using exponent_bounds(1) [OF nz] a u lo by (simp add: field_simps)
  then have "round_even (of_int (2 ^ 52)) \<le> round_even (v / ?u)"
    by (rule round_even_mono)
  then have "(2 ^ 52 :: int) \<le> round_even (v / ?u)"
    by (simp only: round_even_of_int)
  then have "of_int (2 ^ 52) * ?u \<le> of_int (round_even (v / ?u)) * ?u"
    using u by (intro mult_right_mono) simp_all
  then show "2 powi exponent v \<le> round_double v"
    by (simp only: lo round_double_def)
  have "v / ?u \<le> of_int (2 ^ 53)"
    using exponent_bounds(2) [OF nz] a u hi by (simp add: field_simps)
  then have "round_even (v / ?u) \<le> round_even (of_int (2 ^ 53))"
    by (rule round_even_mono)
  then have "round_even (v / ?u) \<le> (2 ^ 53 :: int)"
    by (simp only: round_even_of_int)
  then have "of_int (round_even (v / ?u)) * ?u \<le> of_int (2 ^ 53) * ?u"
    using u by (intro mult_right_mono) simp_all
  then show "round_double v \<le> 2 powi (exponent v + 1)"
    by (simp only: hi round_double_def)
qed

lemma round_double_pos: "0 < v \<Longrightarrow> 0 < round_double v"
proof -
  assume "0 < v"
  from round_double_binade(1) [OF this] have "2 powi exponent v \<le> round_double v" .
  moreover have "0 < (2::real) powi exponent v" by simp
  ultimately show ?thesis by linarith
qed

lemma exponent_mono:
  assumes "0 < v" and "v \<le> w"
  shows "exponent v \<le> exponent w"
  unfolding exponent_def using assms by (intro floor_mono) simp

lemma round_double_mono:
  assumes "0 < v" and "v \<le> w"
  shows "round_double v \<le> round_double w"
proof (cases "exponent v = exponent w")
  case True
  let ?u = "(2::real) powi (exponent w - 52)"
  have u: "0 < ?u" by simp
  from assms(2) u have "v / ?u \<le> w / ?u" by (simp add: divide_right_mono)
  then have "round_even (v / ?u) \<le> round_even (w / ?u)" by (rule round_even_mono)
  then have "of_int (round_even (v / ?u)) * ?u \<le> of_int (round_even (w / ?u)) * ?u"
    using u by (intro mult_right_mono) simp_all
  then show ?thesis by (simp add: round_double_def True)
next
  case False
  with exponent_mono [OF assms] have "exponent v + 1 \<le> exponent w" by simp
  then have "(2::real) powi (exponent v + 1) \<le> 2 powi exponent w"
    by (intro power_int_increasing) simp_all
  moreover from assms have "0 < w" by simp
  ultimately show ?thesis
    using round_double_binade(2) [OF assms(1)] round_double_binade(1) [OF \<open>0 < w\<close>] by linarith
qed

lemma two_roundings_error:
  fixes x r t b :: real
  assumes e1: "\<bar>r - t\<bar> \<le> \<bar>t\<bar> / 2 ^ 53" and e2: "\<bar>x - r * b\<bar> \<le> \<bar>r * b\<bar> / 2 ^ 53"
  shows "\<bar>x - t * b\<bar> \<le> \<bar>t * b\<bar> / 2 ^ 51"
proof -
  have "\<bar>t\<bar> / 2 ^ 53 \<le> \<bar>t\<bar>" by (simp add: field_simps)
  with e1 have r: "\<bar>r\<bar> \<le> 2 * \<bar>t\<bar>" by linarith
  have "\<bar>r * b\<bar> = \<bar>r\<bar> * \<bar>b\<bar>" by (rule abs_mult)
  also have "\<dots> \<le> (2 * \<bar>t\<bar>) * \<bar>b\<bar>" using r by (intro mult_right_mono) simp_all
  also have "\<dots> = 2 * \<bar>t * b\<bar>" by (simp add: abs_mult)
  finally have rb: "\<bar>r * b\<bar> \<le> 2 * \<bar>t * b\<bar>" .
  have "\<bar>r * b - t * b\<bar> = \<bar>r - t\<bar> * \<bar>b\<bar>"
    by (simp add: abs_mult [symmetric] left_diff_distrib)
  also have "\<dots> \<le> (\<bar>t\<bar> / 2 ^ 53) * \<bar>b\<bar>" using e1 by (intro mult_right_mono) simp_all
  also have "\<dots> = \<bar>t * b\<bar> / 2 ^ 53" by (simp add: abs_mult)
  finally have d: "\<bar>r * b - t * b\<bar> \<le> \<bar>t * b\<bar> / 2 ^ 53" .
  from rb have rb': "\<bar>r * b\<bar> / 2 ^ 53 \<le> 2 * \<bar>t * b\<bar> / 2 ^ 53"
    by (simp add: divide_right_mono)
  have "\<bar>x - t * b\<bar> \<le> \<bar>x - r * b\<bar> + \<bar>r * b - t * b\<bar>" by linarith
  also have "\<dots> \<le> 2 * \<bar>t * b\<bar> / 2 ^ 53 + \<bar>t * b\<bar> / 2 ^ 53"
    using e2 rb' d by linarith
  also have "\<dots> \<le> \<bar>t * b\<bar> / 2 ^ 51"
    by (simp add: field_simps)
  finally show ?thesis .
qed

subsection \<open>The numeric operations are defined\<close>

lemma Math_sqrt_sum_squares [simp]: "Math_sqrt (a * a + b * b) = Some (sqrt (a * a + b * b))"
  by (simp add: Math_sqrt_def not_less)

lemma force_at_Some [simp]:
  "force_at d = Some (round_double (round_double (mouseRadius - d) / mouseRadius))"
  by (simp add: force_at_def js_div_def mouseRadius_def)

lemma opacity_at_Some [simp]: "opacity_at d = Some ((1 - d / maxDistance) * 0.5)"
  by (simp add: opacity_at_def js_div_def maxDistance_def)

lemma Math_random_const [simp]: "Math_random (const_rng c) = (c, const_rng c)"
  by (simp add: Math_random_def const_rng_def)

lemma mouse_interaction_Some: "\<exists>q. mouse_interaction p m = Some q"
  by (simp add: mouse_interaction_def Let_def split: option.splits)

lemma mouse_interaction_position:
  "mouse_interaction p m = Some q \<Longrightarrow> px q = px p \<and> py q = py p \<and> psize q = psize p"
  by (auto simp: mouse_interaction_def Let_def split: option.splits if_splits)

lemma mouse_interaction_absent [simp]:
  "mouse_interaction p \<lparr>mouse_x = None, mouse_y = None\<rparr> = Some p"
  by (simp add: mouse_interaction_def)

lemma update_eq:
  "mouse_interaction p m = Some q \<Longrightarrow>
   update p m cv g =
     Some (boundary_collision (fst (keep_moving (damping (update_position q)) g)) cv,
           snd (keep_moving (damping (update_position q)) g))"
  by (simp add: update_def Let_def split: prod.splits)

subsection \<open>Particle.update\<close>

lemma boundary_collision_bounds:
  assumes "0 \<le> width cv" "0 \<le> height cv"
  shows "0 \<le> px (boundary_collision p cv) \<and> px (boundary_collision p cv) \<le> width cv \<and>
         0 \<le> py (boundary_collision p cv) \<and> py (boundary_collision p cv) \<le> height cv"
  using assms by (auto simp: boundary_collision_def Let_def)

text \<open>
  C1.  Whatever the particle, the pointer and the random numbers, and for a canvas of
  non-negative width and height, \<open>update\<close> returns a particle whose position lies in
  \<open>[0, width] \<times> [0, height]\<close>.
\<close>

theorem update_boundary_containment:
  assumes "0 \<le> width cv" and "0 \<le> height cv"
  shows "\<exists>p' g'. update p m cv g = Some (p', g') \<and>
           0 \<le> px p' \<and> px p' \<le> width cv \<and> 0 \<le> py p' \<and> py p' \<le> height cv"
proof -
  obtain q where q: "mouse_interaction p m = Some q"
    using mouse_interaction_Some by blast
  show ?thesis
    using boundary_collision_bounds [OF assms] by (simp add: update_eq [OF q])
qed

theorem update_boundary_containment_witness:
  "0 \<le> width \<lparr>width = 100, height = 80\<rparr> \<and> 0 \<le> height \<lparr>width = 100, height = 80\<rparr> \<and>
   (\<exists>p' g'. update \<lparr>px = 99, py = - 3, pvx = 4, pvy = - 2, psize = 3.5\<rparr>
               \<lparr>mouse_x = Some 90, mouse_y = Some 10\<rparr> \<lparr>width = 100, height = 80\<rparr>
               (const_rng (1 / 4)) = Some (p', g') \<and>
             0 \<le> px p' \<and> px p' \<le> width \<lparr>width = 100, height = 80\<rparr> \<and>
             0 \<le> py p' \<and> py p' \<le> height \<lparr>width = 100, height = 80\<rparr>)"
  using update_boundary_containment
    [of "\<lparr>width = 100, height = 80\<rparr>" "\<lparr>px = 99, py = - 3, pvx = 4, pvy = - 2, psize = 3.5\<rparr>"
        "\<lparr>mouse_x = Some 90, mouse_y = Some 10\<rparr>" "const_rng (1 / 4)"]
  by simp

lemma keep_moving_vx:
  "pvx (fst (keep_moving p g)) = pvx p + (if \<bar>pvx p\<bar> < 0.1 then (g 0 - 0.5) * 0.1 else 0)"
  by (simp add: keep_moving_def Let_def Math_random_def split: prod.splits)

lemma keep_moving_vy:
  "pvy (fst (keep_moving p g)) =
     pvy p + (if \<bar>pvy p\<bar> < 0.1 then (g (if \<bar>pvx p\<bar> < 0.1 then 1 else 0) - 0.5) * 0.1 else 0)"
  by (simp add: keep_moving_def Let_def Math_random_def split: prod.splits)

lemma keep_moving_position:
  "px (fst (keep_moving p g)) = px p \<and> py (fst (keep_moving p g)) = py p"
  by (simp add: keep_moving_def Let_def Math_random_def split: prod.splits)

lemma boundary_collision_x:
  "px (boundary_collision p cv) =
     (if px p < 0 \<or> px p > width cv then max 0 (min (width cv) (px p)) else px p)"
  "pvx (boundary_collision p cv) = (if px p < 0 \<or> px p > width cv then - pvx p else pvx p)"
  by (simp_all add: boundary_collision_def Let_def)

text \<open>
  C2, as stated, fails.  A particle entering \<open>update\<close> at \<open>x = width + 5\<close> with
  \<open>vx = 2\<close> and no pointer, on a canvas of width 100, leaves it at \<open>x = width\<close> with
  \<open>vx = - 1.98\<close>, not \<open>- 2\<close>: the damping by 0.99 comes before the reflection.
\<close>

theorem reflection_counterexample:
  "update \<lparr>px = 100 + 5, py = 50, pvx = 2, pvy = 1, psize = 3.5\<rparr>
      \<lparr>mouse_x = None, mouse_y = None\<rparr> \<lparr>width = 100, height = 100\<rparr> (const_rng (1 / 2))
   = Some (\<lparr>px = 100, py = 51, pvx = - 1.98, pvy = 0.99, psize = 3.5\<rparr>, const_rng (1 / 2))
   \<and> pvx \<lparr>px = 100, py = 51, pvx = - 1.98, pvy = 0.99, psize = 3.5\<rparr> \<noteq> - 2"
  by (simp add: update_def update_position_def damping_def keep_moving_def
      boundary_collision_def Let_def)

text \<open>
  C2, amended.  On a canvas of non-negative width, a particle entering \<open>update\<close> at
  \<open>x = width + 5\<close> with \<open>vx = 2\<close> and no pointer leaves it at \<open>x = width\<close> with
  \<open>vx = - 1.98\<close>: the velocity is damped by 0.99, then its sign is inverted, and the
  position is clamped to the boundary.
\<close>

theorem reflection_after_damping:
  assumes "0 \<le> width cv" and "px p = width cv + 5" and "pvx p = 2"
  shows "\<exists>p' g'. update p \<lparr>mouse_x = None, mouse_y = None\<rparr> cv g = Some (p', g') \<and>
           px p' = width cv \<and> pvx p' = - 1.98"
proof -
  let ?d = "damping (update_position p)"
  let ?k = "fst (keep_moving ?d g)"
  have d: "px ?d = width cv + 7" "pvx ?d = 1.98"
    using assms by (simp_all add: damping_def update_position_def)
  have k: "px ?k = width cv + 7" "pvx ?k = 1.98"
    using keep_moving_position [of ?d g] keep_moving_vx [of ?d g] d by simp_all
  have "px (boundary_collision ?k cv) = width cv" "pvx (boundary_collision ?k cv) = - 1.98"
    using assms(1) k by (simp_all add: boundary_collision_x)
  then show ?thesis
    by (simp add: update_eq [OF mouse_interaction_absent])
qed

theorem reflection_after_damping_witness:
  "0 \<le> width \<lparr>width = 300, height = 150\<rparr> \<and>
   px \<lparr>px = 305, py = 20, pvx = 2, pvy = 0, psize = 3.5\<rparr> = width \<lparr>width = 300, height = 150\<rparr> + 5 \<and>
   pvx \<lparr>px = 305, py = 20, pvx = 2, pvy = 0, psize = 3.5\<rparr> = 2 \<and>
   (\<exists>p' g'. update \<lparr>px = 305, py = 20, pvx = 2, pvy = 0, psize = 3.5\<rparr>
               \<lparr>mouse_x = None, mouse_y = None\<rparr> \<lparr>width = 300, height = 150\<rparr>
               (const_rng (1 / 2)) = Some (p', g') \<and>
             px p' = width \<lparr>width = 300, height = 150\<rparr> \<and> pvx p' = - 1.98)"
  using reflection_after_damping
    [of "\<lparr>width = 300, height = 150\<rparr>" "\<lparr>px = 305, py = 20, pvx = 2, pvy = 0, psize = 3.5\<rparr>"
        "const_rng (1 / 2)"]
  by simp


lemma keep_moving_rest:
  "snd (keep_moving p g) =
     (\<lambda>n. g (n + (if \<bar>pvx p\<bar> < 0.1 then 1 else 0) + (if \<bar>pvy p\<bar> < 0.1 then 1 else 0)))"
  by (auto simp: keep_moving_def Let_def Math_random_def split: prod.splits)

lemma boundary_collision_y:
  "py (boundary_collision p cv) =
     (if py p < 0 \<or> py p > height cv then max 0 (min (height cv) (py p)) else py p)"
  "pvy (boundary_collision p cv) = (if py p < 0 \<or> py p > height cv then - pvy p else pvy p)"
  by (simp_all add: boundary_collision_def Let_def)



lemma round_double_199: "round_double 199 = 199"
  by (subst round_double_eq [where e = 7]) (simp_all add: round_even_def power_int_minus)

lemma round_double_below_199: "round_double (200 - (1 + 1 / 2 ^ 52)) = 199"
  by (subst round_double_eq [where e = 7]) (simp_all add: round_even_def power_int_minus)

lemma round_double_force_199:
  "round_double (199 / 200) = 8962163258467287 / 2 ^ 53"
  by (subst round_double_eq [where e = "- 1"]) (simp_all add: round_even_def power_int_minus)

lemma pointer_distance_level: "py p = b \<Longrightarrow> pointer_distance p a b = \<bar>px p - a\<bar>"
  by simp

lemma Math_atan2_right: "0 < a \<Longrightarrow> Math_atan2 0 a = 0"
  by (simp add: Math_atan2_def)

lemma mouse_interaction_level:
  assumes "py p = b" and "a < px p" and "px p - a < mouseRadius"
    and "force_at (px p - a) = Some f"
  shows "mouse_interaction p \<lparr>mouse_x = Some a, mouse_y = Some b\<rparr>
           = Some (p\<lparr>pvx := pvx p + f * mouseForce\<rparr>)"
proof -
  have d: "pointer_distance p a b = px p - a"
    using assms(1,2) by simp
  have t: "Math_atan2 (py p - b) (px p - a) = 0"
    using assms(1,2) by (simp add: Math_atan2_right)
  have "mouse_interaction p \<lparr>mouse_x = Some a, mouse_y = Some b\<rparr>
      = Some (p\<lparr>pvx := pvx p + cos 0 * f * mouseForce, pvy := pvy p + sin 0 * f * mouseForce\<rparr>)"
    using assms(3,4) unfolding mouse_interaction_def Let_def
    by (simp only: mouse.simps prod.case option.case Math_sqrt_sum_squares d t
        Option.bind.simps if_True)
  then show ?thesis by simp
qed


lemma force_at_error:
  "\<bar>round_double (round_double (mouseRadius - d) / mouseRadius) - (mouseRadius - d) / mouseRadius\<bar>
     \<le> \<bar>(mouseRadius - d) / mouseRadius\<bar> / 2 ^ 51"
  using two_roundings_error
    [OF round_double_error round_double_error, of "mouseRadius - d" "1 / mouseRadius"]
  by simp

lemma force_at_strict:
  assumes "0 \<le> d1" and "d1 + 1 / 2 ^ 42 \<le> d2" and "d2 < mouseRadius"
    and "force_at d1 = Some f1" and "force_at d2 = Some f2"
  shows "f2 < f1"
proof -
  define t1 where "t1 = (mouseRadius - d1) / mouseRadius"
  define t2 where "t2 = (mouseRadius - d2) / mouseRadius"
  from assms(4,5) have f: "f1 = round_double (round_double (mouseRadius - d1) / mouseRadius)"
    "f2 = round_double (round_double (mouseRadius - d2) / mouseRadius)"
    by (simp_all only: force_at_Some option.inject)
  from assms(1-3) have t: "0 < t2" "t1 \<le> 1"
    by (simp_all add: mouseRadius_def t1_def t2_def)
  have gap: "1 / 2 ^ 42 / 200 \<le> t1 - t2"
    using assms(2) by (simp add: mouseRadius_def t1_def t2_def field_simps)
  have e1: "\<bar>f1 - t1\<bar> \<le> \<bar>t1\<bar> / 2 ^ 51" unfolding f t1_def by (rule force_at_error)
  have e2: "\<bar>f2 - t2\<bar> \<le> \<bar>t2\<bar> / 2 ^ 51" unfolding f t2_def by (rule force_at_error)
  have c: "(2::real) / 2 ^ 51 < 1 / 2 ^ 42 / 200" by simp
  have "0 < t1" using gap t(1) by simp
  with t have a: "\<bar>t1\<bar> = t1" "\<bar>t2\<bar> = t2" by simp_all
  have "t2 \<le> 1" using gap t(2) by simp
  then have b2: "t2 / 2 ^ 51 \<le> 1 / 2 ^ 51" by (simp add: divide_right_mono)
  have b1: "t1 / 2 ^ 51 \<le> 1 / 2 ^ 51" using t(2) by (simp add: divide_right_mono)
  from e1 e2 b1 b2 gap c show ?thesis
    unfolding a by linarith
qed

lemma force_at_near_exact:
  assumes "d < mouseRadius" and "force_at d = Some f"
  shows "\<bar>f - (mouseRadius - d) / mouseRadius\<bar> \<le> (mouseRadius - d) / mouseRadius / 2 ^ 51"
proof -
  from assms(2) have f: "f = round_double (round_double (mouseRadius - d) / mouseRadius)"
    by (simp only: force_at_Some option.inject)
  from assms(1) have "0 \<le> (mouseRadius - d) / mouseRadius"
    by (simp add: mouseRadius_def)
  then have a: "\<bar>(mouseRadius - d) / mouseRadius\<bar> = (mouseRadius - d) / mouseRadius"
    by (rule abs_of_nonneg)
  show ?thesis
    using force_at_error [of d] unfolding f a .
qed

lemma force_at_antimono:
  assumes "d1 \<le> d2" and "d2 < mouseRadius"
  shows "\<exists>f1 f2. force_at d1 = Some f1 \<and> force_at d2 = Some f2 \<and> f2 \<le> f1 \<and> 0 < f2"
proof -
  let ?r1 = "round_double (mouseRadius - d1)"
  let ?r2 = "round_double (mouseRadius - d2)"
  from assms have pos: "0 < mouseRadius - d2" and le: "mouseRadius - d2 \<le> mouseRadius - d1"
    by simp_all
  have r: "?r2 \<le> ?r1" using pos le by (rule round_double_mono)
  have rp: "0 < ?r2" using pos by (rule round_double_pos)
  have q: "0 < ?r2 / mouseRadius" "?r2 / mouseRadius \<le> ?r1 / mouseRadius"
    using r rp by (simp_all add: mouseRadius_def)
  have "round_double (?r2 / mouseRadius) \<le> round_double (?r1 / mouseRadius)"
    using q by (rule round_double_mono)
  moreover have "0 < round_double (?r2 / mouseRadius)"
    using q(1) by (rule round_double_pos)
  ultimately show ?thesis
    by (simp only: force_at_Some) blast
qed

lemma mouse_interaction_near:
  assumes "pointer_distance p a b < mouseRadius" and "force_at (pointer_distance p a b) = Some f"
  shows "mouse_interaction p \<lparr>mouse_x = Some a, mouse_y = Some b\<rparr> =
           Some (p\<lparr>pvx := pvx p + cos (Math_atan2 (py p - b) (px p - a)) * f * mouseForce,
                   pvy := pvy p + sin (Math_atan2 (py p - b) (px p - a)) * f * mouseForce\<rparr>)"
  using assms unfolding mouse_interaction_def Let_def
  by (simp only: mouse.simps prod.case option.case Math_sqrt_sum_squares
      Option.bind.simps if_True)

lemma mouse_interaction_far:
  assumes "mouseRadius \<le> pointer_distance p a b"
  shows "mouse_interaction p \<lparr>mouse_x = Some a, mouse_y = Some b\<rparr> = Some p"
  using assms by (simp add: mouse_interaction_def Let_def)



subsection \<open>ParticleSystem.drawLines\<close>

lemma connect_eq:
  "connect s tr i j =
     Some (s\<lparr>ctx := ctx s @ pair_ops (particles s) (i, j)\<rparr>, tr @ [measured (particles s) (i, j)])"
  by (simp add: connect_def Let_def pair_ops_def measured_def)

lemma drawLines_inner_eq:
  "drawLines_inner s tr i j =
     Some (s\<lparr>ctx := ctx s @ concat (map (pair_ops (particles s)) (map (Pair i) [j..<length (particles s)]))\<rparr>,
           tr @ map (measured (particles s)) (map (Pair i) [j..<length (particles s)]))"
proof (induction s tr i j rule: drawLines_inner.induct)
  case (1 s tr i j)
  show ?case
  proof (cases "j < length (particles s)")
    case True
    let ?s1 = "s\<lparr>ctx := ctx s @ pair_ops (particles s) (i, j)\<rparr>"
    let ?tr1 = "tr @ [measured (particles s) (i, j)]"
    have c: "connect s tr i j = Some (?s1, ?tr1)" by (rule connect_eq)
    have "drawLines_inner s tr i j = drawLines_inner ?s1 ?tr1 i (j + 1)"
      using True c by (subst drawLines_inner.simps) simp
    also note "1.IH" [OF True c refl]
    finally show ?thesis
      using True by (simp add: upt_conv_Cons)
  next
    case False
    then show ?thesis
      by (subst drawLines_inner.simps) simp
  qed
qed

lemma drawLines_outer_eq:
  "drawLines_outer s tr i =
     Some (s\<lparr>ctx := ctx s @ concat (map (pair_ops (particles s)) (index_pairs (length (particles s)) i))\<rparr>,
           tr @ map (measured (particles s)) (index_pairs (length (particles s)) i))"
proof (induction s tr i rule: drawLines_outer.induct)
  case (1 s tr i)
  show ?case
  proof (cases "i < length (particles s)")
    case True
    let ?row = "map (Pair i) [i + 1..<length (particles s)]"
    let ?s1 = "s\<lparr>ctx := ctx s @ concat (map (pair_ops (particles s)) ?row)\<rparr>"
    let ?tr1 = "tr @ map (measured (particles s)) ?row"
    have c: "drawLines_inner s tr i (i + 1) = Some (?s1, ?tr1)" by (rule drawLines_inner_eq)
    have "drawLines_outer s tr i = drawLines_outer ?s1 ?tr1 (i + 1)"
      using True c by (subst drawLines_outer.simps) simp
    also note "1.IH" [OF True c refl]
    finally show ?thesis
      using True by (simp add: upt_conv_Cons index_pairs_def)
  next
    case False
    then show ?thesis
      by (subst drawLines_outer.simps) (simp add: index_pairs_def)
  qed
qed

lemma drawLines_eq:
  "drawLines s =
     Some (s\<lparr>ctx := ctx s @ concat (map (pair_ops (particles s)) (index_pairs (length (particles s)) 0))\<rparr>,
           map (measured (particles s)) (index_pairs (length (particles s)) 0))"
  by (simp add: drawLines_def drawLines_outer_eq)

lemma set_index_pairs: "set (index_pairs n 0) = {(i, j). i < j \<and> j < n}"
  by (fastforce simp: index_pairs_def)

lemma distinct_index_pairs_upto:
  "distinct (concat (map (\<lambda>a. map (Pair a) [a + 1..<n]) [0..<m]))"
  by (induction m) (auto simp: distinct_map inj_on_def)

lemma distinct_index_pairs: "distinct (index_pairs n 0)"
  using distinct_index_pairs_upto [of n n] by (simp add: index_pairs_def)

lemma length_index_pairs: "length (index_pairs n 0) = n * (n - 1) div 2"
proof -
  have "length (index_pairs n 0) = (\<Sum>a<n. n - Suc a)"
    by (simp add: index_pairs_def length_concat comp_def interv_sum_list_conv_sum_set_nat
        atLeast0LessThan)
  also have "\<dots> = (\<Sum>a<n. a)"
    by (rule sum.nat_diff_reindex)
  also have "\<dots> = n * (n - 1) div 2"
    using Sum_Ico_nat [of 0 n] by (simp add: atLeast0LessThan)
  finally show ?thesis .
qed

lemma count_list_distinct:
  "distinct xs \<Longrightarrow> count_list xs a = (if a \<in> set xs then 1 else 0)"
  by (induction xs) auto

lemma pairs_of_measured: "map (\<lambda>(i, j, d). (i, j)) (map (measured ps) xs) = xs"
  by (induction xs) (simp_all add: measured_def)

text \<open>
  C7.  For a system of \<open>N\<close> particles, \<open>drawLines\<close> computes exactly
  \<open>N * (N - 1) / 2\<close> distances, each the distance of the two particles of its pair; no
  pair occurs twice, the pairs are those \<open>(i, j)\<close> with \<open>i < j < N\<close>, and so of two
  different indices exactly one of the two orders is visited, once.
\<close>

theorem drawLines_pairwise_complete:
  "\<exists>s' tr. drawLines s = Some (s', tr) \<and>
     length tr = length (particles s) * (length (particles s) - 1) div 2 \<and>
     distinct (map (\<lambda>(i, j, d). (i, j)) tr) \<and>
     set (map (\<lambda>(i, j, d). (i, j)) tr) = {(i, j). i < j \<and> j < length (particles s)} \<and>
     (\<forall>(i, j, d) \<in> set tr. d = particle_distance (particles s ! i) (particles s ! j)) \<and>
     (\<forall>i < length (particles s). \<forall>j < length (particles s).
        i \<noteq> j \<longrightarrow>
        count_list (map (\<lambda>(i, j, d). (i, j)) tr) (i, j)
          + count_list (map (\<lambda>(i, j, d). (i, j)) tr) (j, i) = 1)"
proof -
  let ?n = "length (particles s)"
  let ?tr = "map (measured (particles s)) (index_pairs ?n 0)"
  have p: "map (\<lambda>(i, j, d). (i, j)) ?tr = index_pairs ?n 0"
    by (rule pairs_of_measured)
  have r: "drawLines s = Some (s\<lparr>ctx := ctx s @ concat (map (pair_ops (particles s)) (index_pairs ?n 0))\<rparr>, ?tr)"
    by (rule drawLines_eq)
  have l: "length ?tr = ?n * (?n - 1) div 2"
    by (simp add: length_index_pairs)
  have m: "\<forall>(i, j, d) \<in> set ?tr. d = particle_distance (particles s ! i) (particles s ! j)"
    by (auto simp: measured_def)
  have c: "\<forall>i < ?n. \<forall>j < ?n. i \<noteq> j \<longrightarrow>
      count_list (index_pairs ?n 0) (i, j) + count_list (index_pairs ?n 0) (j, i) = 1"
    by (auto simp: count_list_distinct [OF distinct_index_pairs] set_index_pairs)
  have d: "distinct (map (\<lambda>(i, j, d). (i, j)) ?tr)"
    unfolding p by (rule distinct_index_pairs)
  have e: "set (map (\<lambda>(i, j, d). (i, j)) ?tr) = {(i, j). i < j \<and> j < ?n}"
    unfolding p by (rule set_index_pairs)
  have c': "\<forall>i < ?n. \<forall>j < ?n. i \<noteq> j \<longrightarrow>
      count_list (map (\<lambda>(i, j, d). (i, j)) ?tr) (i, j)
        + count_list (map (\<lambda>(i, j, d). (i, j)) ?tr) (j, i) = 1"
    unfolding p by (rule c)
  from r l d e m c' show ?thesis by blast
qed

text \<open>
  C10.  \<open>drawLines\<close> leaves the particles (position, velocity and size of each), the
  pointer and the canvas dimensions as they are; it only appends drawing operations.
\<close>

theorem drawLines_frame:
  "\<exists>s' tr ops. drawLines s = Some (s', tr) \<and>
     particles s' = particles s \<and> mouse s' = mouse s \<and> canvas s' = canvas s \<and>
     ctx s' = ctx s @ ops"
  by (simp add: drawLines_eq)

lemma pair_ops_eq:
  "pair_ops ps =
     (\<lambda>(i, j). if particle_distance (ps ! i) (ps ! j) < maxDistance
                then line_ops (ps ! i) (ps ! j)
                       ((1 - particle_distance (ps ! i) (ps ! j) / maxDistance) * 0.5)
                else [])"
  by (auto simp: pair_ops_def fun_eq_iff)

lemma index_pairs_two: "index_pairs (Suc (Suc 0)) 0 = [(0, Suc 0)]"
  by (simp add: index_pairs_def upt_rec)

lemma drawLines_two:
  assumes "particles s = [p, q]"
  shows "drawLines s =
           Some (s\<lparr>ctx := ctx s @ pair_ops [p, q] (0, 1)\<rparr>, [(0, 1, particle_distance p q)])"
  using assms by (simp add: drawLines_eq index_pairs_two measured_def)

lemma sqrt_2500: "sqrt 2500 = 50"
  by (rule real_sqrt_unique) simp_all

lemma sqrt_32400: "sqrt 32400 = 180"
  by (rule real_sqrt_unique) simp_all

lemma sqrt_160000: "sqrt 160000 = 400"
  by (rule real_sqrt_unique) simp_all




theorem drawLines_pairwise_complete_witness:
  "(0::nat) < length (particles four_particles) \<and> (2::nat) < length (particles four_particles) \<and>
   (0::nat) \<noteq> 2 \<and>
   (\<exists>s' tr. drawLines four_particles = Some (s', tr) \<and> length tr = 6 \<and>
      distinct (map (\<lambda>(i, j, d). (i, j)) tr) \<and>
      count_list (map (\<lambda>(i, j, d). (i, j)) tr) (0, 2)
        + count_list (map (\<lambda>(i, j, d). (i, j)) tr) (2, 0) = 1)"
proof -
  have n: "length (particles four_particles) = 4"
    by (simp add: four_particles_def)
  from drawLines_pairwise_complete [of four_particles] obtain s' tr where
    r: "drawLines four_particles = Some (s', tr)"
      "length tr = length (particles four_particles) * (length (particles four_particles) - 1) div 2"
      "distinct (map (\<lambda>(i, j, d). (i, j)) tr)"
      "\<forall>i < length (particles four_particles). \<forall>j < length (particles four_particles).
         i \<noteq> j \<longrightarrow>
         count_list (map (\<lambda>(i, j, d). (i, j)) tr) (i, j)
           + count_list (map (\<lambda>(i, j, d). (i, j)) tr) (j, i) = 1"
    by blast
  from r(4) n have "count_list (map (\<lambda>(i, j, d). (i, j)) tr) (0, 2)
      + count_list (map (\<lambda>(i, j, d). (i, j)) tr) (2, 0) = 1"
    by simp
  moreover from r(2) n have "length tr = 6" by simp
  ultimately show ?thesis using r(1,3) n by simp
qed

subsection \<open>ParticleSystem.resize\<close>

lemma resize_particles_Some:
  "oldWidth \<noteq> 0 \<Longrightarrow> oldHeight \<noteq> 0 \<Longrightarrow>
   resize_particles ps oldWidth oldHeight newWidth newHeight =
     Some (map (\<lambda>p. p\<lparr>px := round_double (round_double (px p / oldWidth) * newWidth),
                       py := round_double (round_double (py p / oldHeight) * newHeight)\<rparr>) ps)"
  by (induction ps) (simp_all add: js_div_def)

lemma resize_eq:
  "resize s h =
     Some (if 0 < width (canvas s) \<and> 0 < height (canvas s)
           then s\<lparr>canvas := (canvas s)\<lparr>width := offsetWidth h, height := offsetHeight h\<rparr>,
                  particles :=
                    map (\<lambda>p. p\<lparr>px := round_double (round_double (px p / width (canvas s)) * offsetWidth h),
                               py := round_double (round_double (py p / height (canvas s)) * offsetHeight h)\<rparr>)
                        (particles s)\<rparr>
           else s\<lparr>canvas := (canvas s)\<lparr>width := offsetWidth h, height := offsetHeight h\<rparr>\<rparr>)"
  by (simp add: resize_def Let_def resize_particles_Some)

lemma rescale_error:
  "\<bar>round_double (round_double (v / a) * b) - v * b / a\<bar> \<le> \<bar>v * b / a\<bar> / 2 ^ 51"
  using two_roundings_error [OF round_double_error round_double_error, of "v / a" b]
  by simp

lemma round_double_1_49: "round_double (1 / 49) = 5882252574524729 / 2 ^ 58"
  by (subst round_double_eq [where e = "- 6"]) (simp_all add: round_even_def power_int_minus)

lemma round_double_49th_49: "round_double (5882252574524729 / 2 ^ 58 * 49) = 1 - 1 / 2 ^ 53"
  by (subst round_double_eq [where e = "- 1"]) (simp_all add: round_even_def power_int_minus)

lemma round_double_49th_98: "round_double (5882252574524729 / 2 ^ 58 * 98) = 2 - 1 / 2 ^ 52"
  by (subst round_double_eq [where e = 0]) (simp_all add: round_even_def power_int_minus)

lemma round_double_half: "round_double (1 / 2) = 1 / 2"
  by (subst round_double_eq [where e = "- 1"]) (simp_all add: round_even_def power_int_minus)

lemma round_double_200: "round_double 200 = 200"
  by (subst round_double_eq [where e = 7]) (simp_all add: round_even_def power_int_minus)

lemma round_double_100: "round_double 100 = 100"
  by (subst round_double_eq [where e = 6]) (simp_all add: round_even_def power_int_minus)

text \<open>
  C6, as stated, fails.  On a canvas of \<open>49 \<times> 49\<close> resized to \<open>49 \<times> 98\<close>, the
  particle at \<open>(1, 1)\<close> is moved to \<open>(1 - 2 powi - 53, 2 - 2 powi - 52)\<close>, not to
  \<open>(1 * 49 / 49, 1 * 98 / 49) = (1, 2)\<close>: the quotient \<open>1 / 49\<close> is rounded before it
  is multiplied.
\<close>

theorem resize_counterexample:
  "resize \<lparr>canvas = \<lparr>width = 49, height = 49\<rparr>, ctx = [],
           particles = [\<lparr>px = 1, py = 1, pvx = 0, pvy = 0, psize = 3.5\<rparr>],
           mouse = \<lparr>mouse_x = None, mouse_y = None\<rparr>\<rparr>
          \<lparr>offsetWidth = 49, offsetHeight = 98, listeners = [], animation_frames = 0,
           random = const_rng 0\<rparr>
     = Some \<lparr>canvas = \<lparr>width = 49, height = 98\<rparr>, ctx = [],
             particles = [\<lparr>px = 1 - 1 / 2 ^ 53, py = 2 - 1 / 2 ^ 52, pvx = 0, pvy = 0, psize = 3.5\<rparr>],
             mouse = \<lparr>mouse_x = None, mouse_y = None\<rparr>\<rparr> \<and>
   (1 - 1 / 2 ^ 53 :: real) \<noteq> 1 * 49 / 49 \<and> (2 - 1 / 2 ^ 52 :: real) \<noteq> 1 * 98 / 49"
proof -
  have x: "round_double (round_double (1 / 49) * 49) = 1 - 1 / 2 ^ 53"
    by (simp only: round_double_1_49 round_double_49th_49)
  have y: "round_double (round_double (1 / 49) * 98) = 2 - 1 / 2 ^ 52"
    by (simp only: round_double_1_49 round_double_49th_98)
  have "resize \<lparr>canvas = \<lparr>width = 49, height = 49\<rparr>, ctx = [],
           particles = [\<lparr>px = 1, py = 1, pvx = 0, pvy = 0, psize = 3.5\<rparr>],
           mouse = \<lparr>mouse_x = None, mouse_y = None\<rparr>\<rparr>
          \<lparr>offsetWidth = 49, offsetHeight = 98, listeners = [], animation_frames = 0,
           random = const_rng 0\<rparr>
     = Some \<lparr>canvas = \<lparr>width = 49, height = 98\<rparr>, ctx = [],
             particles = [\<lparr>px = round_double (round_double (1 / 49) * 49),
                            py = round_double (round_double (1 / 49) * 98),
                            pvx = 0, pvy = 0, psize = 3.5\<rparr>],
             mouse = \<lparr>mouse_x = None, mouse_y = None\<rparr>\<rparr>"
    by (simp add: resize_eq)
  then show ?thesis
    unfolding x y by simp
qed

lemma rescaled_particle:
  fixes p :: particle and a b c d :: real
  assumes "p' = p\<lparr>px := round_double (round_double (px p / a) * c),
                     py := round_double (round_double (py p / b) * d)\<rparr>"
  shows "px p' = round_double (round_double (px p / a) * c) \<and>
         py p' = round_double (round_double (py p / b) * d) \<and>
         \<bar>px p' - px p * c / a\<bar> \<le> \<bar>px p * c / a\<bar> / 2 ^ 51 \<and>
         \<bar>py p' - py p * d / b\<bar> \<le> \<bar>py p * d / b\<bar> / 2 ^ 51 \<and>
         pvx p' = pvx p \<and> pvy p' = pvy p \<and> psize p' = psize p"
proof -
  have x: "px p' = round_double (round_double (px p / a) * c)"
    and y: "py p' = round_double (round_double (py p / b) * d)"
    and v: "pvx p' = pvx p" "pvy p' = pvy p" "psize p' = psize p"
    by (simp_all add: assms)
  have ex: "\<bar>px p' - px p * c / a\<bar> \<le> \<bar>px p * c / a\<bar> / 2 ^ 51"
    unfolding x by (rule rescale_error)
  have ey: "\<bar>py p' - py p * d / b\<bar> \<le> \<bar>py p * d / b\<bar> / 2 ^ 51"
    unfolding y by (rule rescale_error)
  from x y ex ey v show ?thesis by blast
qed

text \<open>
  C6, amended.  When both dimensions of the canvas were positive, \<open>resize\<close> sets the
  canvas to the measured dimensions and moves every particle to
  \<open>(x / oldWidth) * newWidth\<close> and \<open>(y / oldHeight) * newHeight\<close>, the quotient and
  the product each rounded to a double, leaving velocity and size as they are.  The new
  position differs from \<open>x * newWidth / oldWidth\<close> and \<open>y * newHeight / oldHeight\<close> by
  at most the fraction \<open>2 powi - 51\<close> of these.  For instance the particle at the relative
  position \<open>(0.5, 0.5)\<close> of a canvas of \<open>200 \<times> 100\<close> is at \<open>(200, 100)\<close> after a
  resize to \<open>400 \<times> 200\<close>.
\<close>

theorem resize_rescales:
  assumes "0 < width (canvas s)" and "0 < height (canvas s)"
  shows "\<exists>s'. resize s h = Some s' \<and>
           width (canvas s') = offsetWidth h \<and> height (canvas s') = offsetHeight h \<and>
           length (particles s') = length (particles s) \<and>
           (\<forall>k < length (particles s).
              px (particles s' ! k) =
                round_double (round_double (px (particles s ! k) / width (canvas s)) * offsetWidth h) \<and>
              py (particles s' ! k) =
                round_double (round_double (py (particles s ! k) / height (canvas s)) * offsetHeight h) \<and>
              \<bar>px (particles s' ! k) - px (particles s ! k) * offsetWidth h / width (canvas s)\<bar>
                \<le> \<bar>px (particles s ! k) * offsetWidth h / width (canvas s)\<bar> / 2 ^ 51 \<and>
              \<bar>py (particles s' ! k) - py (particles s ! k) * offsetHeight h / height (canvas s)\<bar>
                \<le> \<bar>py (particles s ! k) * offsetHeight h / height (canvas s)\<bar> / 2 ^ 51 \<and>
              pvx (particles s' ! k) = pvx (particles s ! k) \<and>
              pvy (particles s' ! k) = pvy (particles s ! k) \<and>
              psize (particles s' ! k) = psize (particles s ! k))"
proof -
  let ?f = "\<lambda>p. p\<lparr>px := round_double (round_double (px p / width (canvas s)) * offsetWidth h),
                     py := round_double (round_double (py p / height (canvas s)) * offsetHeight h)\<rparr>"
  let ?s' = "s\<lparr>canvas := (canvas s)\<lparr>width := offsetWidth h, height := offsetHeight h\<rparr>,
               particles := map ?f (particles s)\<rparr>"
  have r: "resize s h = Some ?s'"
    using assms by (simp add: resize_eq)
  have c: "width (canvas ?s') = offsetWidth h" "height (canvas ?s') = offsetHeight h"
    "length (particles ?s') = length (particles s)"
    by simp_all
  have k: "\<forall>k < length (particles s).
      px (particles ?s' ! k) =
        round_double (round_double (px (particles s ! k) / width (canvas s)) * offsetWidth h) \<and>
      py (particles ?s' ! k) =
        round_double (round_double (py (particles s ! k) / height (canvas s)) * offsetHeight h) \<and>
      \<bar>px (particles ?s' ! k) - px (particles s ! k) * offsetWidth h / width (canvas s)\<bar>
        \<le> \<bar>px (particles s ! k) * offsetWidth h / width (canvas s)\<bar> / 2 ^ 51 \<and>
      \<bar>py (particles ?s' ! k) - py (particles s ! k) * offsetHeight h / height (canvas s)\<bar>
        \<le> \<bar>py (particles s ! k) * offsetHeight h / height (canvas s)\<bar> / 2 ^ 51 \<and>
      pvx (particles ?s' ! k) = pvx (particles s ! k) \<and>
      pvy (particles ?s' ! k) = pvy (particles s ! k) \<and>
      psize (particles ?s' ! k) = psize (particles s ! k)"
  proof (intro allI impI)
    fix k
    assume "k < length (particles s)"
    then have "particles ?s' ! k = ?f (particles s ! k)" by simp
    then show "px (particles ?s' ! k) =
        round_double (round_double (px (particles s ! k) / width (canvas s)) * offsetWidth h) \<and>
      py (particles ?s' ! k) =
        round_double (round_double (py (particles s ! k) / height (canvas s)) * offsetHeight h) \<and>
      \<bar>px (particles ?s' ! k) - px (particles s ! k) * offsetWidth h / width (canvas s)\<bar>
        \<le> \<bar>px (particles s ! k) * offsetWidth h / width (canvas s)\<bar> / 2 ^ 51 \<and>
      \<bar>py (particles ?s' ! k) - py (particles s ! k) * offsetHeight h / height (canvas s)\<bar>
        \<le> \<bar>py (particles s ! k) * offsetHeight h / height (canvas s)\<bar> / 2 ^ 51 \<and>
      pvx (particles ?s' ! k) = pvx (particles s ! k) \<and>
      pvy (particles ?s' ! k) = pvy (particles s ! k) \<and>
      psize (particles ?s' ! k) = psize (particles s ! k)"
      by (rule rescaled_particle)
  qed
  from r c k show ?thesis by blast
qed

theorem resize_rescales_witness:
  "0 < width (canvas \<lparr>canvas = \<lparr>width = 200, height = 100\<rparr>, ctx = [],
        particles = [\<lparr>px = 0.5 * 200, py = 0.5 * 100, pvx = 0.1, pvy = - 0.1, psize = 3.5\<rparr>],
        mouse = \<lparr>mouse_x = None, mouse_y = None\<rparr>\<rparr>) \<and>
   0 < height (canvas \<lparr>canvas = \<lparr>width = 200, height = 100\<rparr>, ctx = [],
        particles = [\<lparr>px = 0.5 * 200, py = 0.5 * 100, pvx = 0.1, pvy = - 0.1, psize = 3.5\<rparr>],
        mouse = \<lparr>mouse_x = None, mouse_y = None\<rparr>\<rparr>) \<and>
   (\<exists>s'. resize \<lparr>canvas = \<lparr>width = 200, height = 100\<rparr>, ctx = [],
        particles = [\<lparr>px = 0.5 * 200, py = 0.5 * 100, pvx = 0.1, pvy = - 0.1, psize = 3.5\<rparr>],
        mouse = \<lparr>mouse_x = None, mouse_y = None\<rparr>\<rparr>
        \<lparr>offsetWidth = 400, offsetHeight = 200, listeners = [], animation_frames = 0,
         random = const_rng 0\<rparr> = Some s' \<and>
      width (canvas s') = 400 \<and> height (canvas s') = 200 \<and>
      px (particles s' ! 0) = 200 \<and> py (particles s' ! 0) = 100 \<and>
      px (particles s' ! 0) = 0.5 * width (canvas s') \<and>
      py (particles s' ! 0) = 0.5 * height (canvas s'))"
  using resize_rescales
    [of "\<lparr>canvas = \<lparr>width = 200, height = 100\<rparr>, ctx = [],
        particles = [\<lparr>px = 0.5 * 200, py = 0.5 * 100, pvx = 0.1, pvy = - 0.1, psize = 3.5\<rparr>],
        mouse = \<lparr>mouse_x = None, mouse_y = None\<rparr>\<rparr>"
        "\<lparr>offsetWidth = 400, offsetHeight = 200, listeners = [], animation_frames = 0,
         random = const_rng 0\<rparr>"]
  by (auto simp: round_double_half round_double_200 round_double_100)

subsection \<open>The constructor\<close>

lemma init_loop_length:
  "i \<le> particleCount \<Longrightarrow>
   length (particles (fst (init_loop i s g))) = length (particles s) + (particleCount - i)"
proof (induction i s g rule: init_loop.induct)
  case (1 i s g)
  show ?case
  proof (cases "i < particleCount")
    case True
    obtain p g' where n: "new_Particle (canvas s) g = (p, g')"
      by (cases "new_Particle (canvas s) g")
    have "length (particles (fst (init_loop (i + 1) (s\<lparr>particles := particles s @ [p]\<rparr>) g')))
        = length (particles (s\<lparr>particles := particles s @ [p]\<rparr>)) + (particleCount - (i + 1))"
      using True by (intro "1.IH" [OF True n [symmetric] refl]) simp
    with True n show ?thesis
      by (subst init_loop.simps) simp
  next
    case False
    with "1.prems" show ?thesis
      by (subst init_loop.simps) simp
  qed
qed

lemma init_Some:
  "\<exists>s1 h1. init s h = Some (s1, h1) \<and>
     length (particles s1) = length (particles s) + particleCount \<and>
     listeners h1 = listeners h \<and> animation_frames h1 = animation_frames h"
proof -
  obtain s0 where r: "resize s h = Some s0" and l: "length (particles s0) = length (particles s)"
    by (simp add: resize_eq)
  obtain s2 g where i: "init_loop 0 s0 (random h) = (s2, g)"
    by (cases "init_loop 0 s0 (random h)")
  have "length (particles s2) = length (particles s0) + particleCount"
    using init_loop_length [of 0 s0 "random h"] i by simp
  with r l i show ?thesis
    by (simp add: init_def)
qed

lemma update_Some: "\<exists>p' g'. update p m cv g = Some (p', g')"
proof -
  obtain q where q: "mouse_interaction p m = Some q"
    using mouse_interaction_Some by blast
  show ?thesis by (simp add: update_eq [OF q])
qed

lemma update_and_draw_Some:
  "\<exists>ps' c' g'. update_and_draw ps m cv c g = Some (ps', c', g') \<and> length ps' = length ps"
proof (induction ps arbitrary: c g)
  case Nil
  show ?case by simp
next
  case (Cons p ps)
  obtain p' g' where u: "update p m cv g = Some (p', g')"
    using update_Some by blast
  from Cons [of "draw p' c" g'] obtain ps' c' g'' where
    "update_and_draw ps m cv (draw p' c) g' = Some (ps', c', g'')" "length ps' = length ps"
    by blast
  with u show ?case by simp
qed

lemma animate_Some:
  "\<exists>s' h'. animate s h = Some (s', h') \<and>
     length (particles s') = length (particles s) \<and>
     listeners h' = listeners h \<and> animation_frames h' = animation_frames h + 1"
proof -
  let ?s1 = "s\<lparr>ctx := ctx s @ [ClearRect 0 0 (width (canvas s)) (height (canvas s))]\<rparr>"
  obtain s2 tr where d: "drawLines ?s1 = Some (s2, tr)" and p: "particles s2 = particles ?s1"
    by (simp add: drawLines_eq)
  obtain ps c g where
    u: "update_and_draw (particles s2) (mouse s2) (canvas s2) (ctx s2) (random h) = Some (ps, c, g)"
    and l: "length ps = length (particles s2)"
    using update_and_draw_Some by blast
  from d p u l show ?thesis
    by (simp add: animate_def)
qed




end
